theory Spec2Isabelle
  imports Main
begin

section \<open>Errors\<close>

text \<open>
  The source defines no exception classes of its own: every failure is raised by a
  library and is not caught.  The operations below are therefore polymorphic in the
  error type; the reference library fixes it to the abstract conditions the
  specification names.
\<close>

datatype error = InvalidArgument | SourceUnavailable | DatasetConflict | StorageAccess

section \<open>The batch partitioner\<close>

text \<open>
  Modelled from the spec: \<open>pangeo_forge.utils.chunked_iterable\<close>, the helper that
  \<open>chunk\<close> delegates to, is missing from the sources.  Section 4.1 gives its contract:
  from an ordered sequence and a positive \<open>size\<close> it produces tuples of \<open>size\<close> items
  each, in order, the last one holding the remainder; the empty sequence yields nothing.
  \<open>tuples n xs\<close> cuts the tuples off the front of \<open>xs\<close> one after the other.
\<close>

function tuples :: "nat \<Rightarrow> 'a list \<Rightarrow> 'a list list" where
  "tuples n xs = (if n = 0 \<or> xs = [] then [] else take n xs # tuples n (drop n xs))"
  by pat_completeness auto
termination
  by (relation "measure (\<lambda>(n, xs). length xs)") auto

declare tuples.simps [simp del]

text \<open>
  Modelled from the spec: a \<open>size\<close> that is not positive is invalid input, answered with
  the \<open>InvalidArgument\<close> condition (section 4.1).
\<close>

definition chunked_iterable :: "'a list \<Rightarrow> int \<Rightarrow> error + 'a list list" where
  "chunked_iterable iterable size' =
     (if size' \<le> 0 then Inl InvalidArgument else Inr (tuples (nat size') iterable))"

text \<open>
  \<^verbatim>\<open>return list(utils.chunked_iterable(sources, size))\<close>: the task collects the tuples
  of the helper into a list.
\<close>

definition chunk :: "'a list \<Rightarrow> int \<Rightarrow> error + 'a list list" where
  "chunk sources size' = chunked_iterable sources size'"

section \<open>The batch combiner and writer\<close>

type_synonym url = string
type_synonym dim = string
type_synonym kwargs = "(string \<times> string) list"

text \<open>
  \<open>combine_and_write\<close> calls two libraries, \<open>fsspec\<close> and \<open>xarray\<close>, neither of
  which is part of the sources.  The calls it makes are the fields of a record that the
  model takes as a parameter, so that what is proved of \<open>combine_and_write\<close> for every
  such record holds whatever the libraries do:
  \<^item> \<open>fsspec_open\<close> is \<^verbatim>\<open>fsspec.open(url).open()\<close>, in the default read mode;
  \<^item> \<open>open_mfdataset\<close> is \<^verbatim>\<open>xr.open_mfdataset(files, combine=..., concat_dim=...)\<close>;
  \<^item> \<open>ds_chunk\<close> is \<^verbatim>\<open>ds.chunk({dim: size, ...})\<close>;
  \<^item> \<open>get_mapper\<close> is \<^verbatim>\<open>fsspec.get_mapper(target)\<close> and \<open>mapper_len\<close> is \<^verbatim>\<open>len(mapper)\<close>;
  \<^item> \<open>to_zarr\<close> is \<^verbatim>\<open>ds.to_zarr(mapper, **kwargs)\<close>.
  \<open>'w\<close> is the state of the storage the libraries work on.  Every call may raise, which
  is the \<open>Inl\<close> result.  The source requests no write access before \<open>to_zarr\<close>, so the
  calls before it read the storage and return no new one; \<open>to_zarr\<close> returns the storage
  as it has left it together with the exception it raised, if any.
\<close>

record ('f, 'ds, 'm, 'w, 'e) library =
  fsspec_open :: "url \<Rightarrow> 'w \<Rightarrow> 'e + 'f"
  open_mfdataset :: "'f list \<Rightarrow> string \<Rightarrow> dim \<Rightarrow> 'e + 'ds"
  ds_chunk :: "'ds \<Rightarrow> (dim \<times> nat) list \<Rightarrow> 'e + 'ds"
  get_mapper :: "url \<Rightarrow> 'w \<Rightarrow> 'e + 'm"
  mapper_len :: "'m \<Rightarrow> 'w \<Rightarrow> 'e + nat"
  to_zarr :: "'ds \<Rightarrow> 'm \<Rightarrow> kwargs \<Rightarrow> 'w \<Rightarrow> 'e option \<times> 'w"

text \<open>
  \<^verbatim>\<open>double_open_files = [fsspec.open(url).open() for url in sources]\<close>: the sources are
  opened from left to right, and the first one that cannot be opened ends the
  comprehension with its exception.
\<close>

fun double_open_files ::
  "('f, 'ds, 'm, 'w, 'e) library \<Rightarrow> url list \<Rightarrow> 'w \<Rightarrow> 'e + 'f list" where
  "double_open_files lib [] w = Inr []"
| "double_open_files lib (url # sources) w =
     (case fsspec_open lib url w of
        Inl e \<Rightarrow> Inl e
      | Inr f \<Rightarrow>
          (case double_open_files lib sources w of
             Inl e \<Rightarrow> Inl e
           | Inr fs \<Rightarrow> Inr (f # fs)))"

text \<open>
  The body of \<open>combine_and_write\<close>, statement by statement.  The result is the returned
  locator or the exception that ended the call, and the storage after the call.
\<close>

definition combine_and_write ::
  "('f, 'ds, 'm, 'w, 'e) library \<Rightarrow> url list \<Rightarrow> url \<Rightarrow> dim \<Rightarrow> dim \<Rightarrow> 'w \<Rightarrow> ('e + url) \<times> 'w" where
  "combine_and_write lib sources target append_dim concat_dim w =
     (case double_open_files lib sources w of
        Inl e \<Rightarrow> (Inl e, w)
      | Inr files \<Rightarrow>
     (case open_mfdataset lib files ''nested'' concat_dim of
        Inl e \<Rightarrow> (Inl e, w)
      | Inr ds \<Rightarrow>
     (case ds_chunk lib ds [(append_dim, length sources)] of
        Inl e \<Rightarrow> (Inl e, w)
      | Inr ds' \<Rightarrow>
     (case get_mapper lib target w of
        Inl e \<Rightarrow> (Inl e, w)
      | Inr mapper \<Rightarrow>
     (case mapper_len lib mapper w of
        Inl e \<Rightarrow> (Inl e, w)
      | Inr n \<Rightarrow>
          (let kwargs = (if n = 0 then [(''mode'', ''w'')]
                         else [(''mode'', ''a''), (''append_dim'', append_dim)])
           in case to_zarr lib ds' mapper kwargs w of
                (Some e, w') \<Rightarrow> (Inl e, w')
              | (None, w') \<Rightarrow> (Inr target, w')))))))"

text \<open>
  The last two statements of \<open>combine_and_write\<close>, \<^verbatim>\<open>ds.to_zarr(mapper, **kwargs)\<close>
  and \<^verbatim>\<open>return target\<close>, seen from the caller: the exception of the write if it
  raised one, the target otherwise, and the storage as the write left it.
\<close>

definition write_result :: "url \<Rightarrow> 'e option \<times> 'w \<Rightarrow> ('e + url) \<times> 'w" where
  "write_result target p =
     (case p of (Some e, w') \<Rightarrow> (Inl e, w') | (None, w') \<Rightarrow> (Inr target, w'))"

section \<open>A reference library\<close>

text \<open>
  Modelled from the spec: the array library and the filesystem layer are absent from the
  sources; the specification treats them as a dependency with a contract (sections 3,
  4.2, 6 and 8), and the definitions of this section follow that contract.

  A dataset has named dimensions.  Along each dimension it holds an ordered sequence of
  slices, grouped into chunks: a chunk is a contiguous run of slices.  A source file
  holds one dataset.  A store is a mapping from keys to objects; the store of a dataset
  has one array per dimension, kept chunk by chunk.  A store may also hold objects that
  are no arrays.
\<close>

type_synonym 'a dataset = "(dim \<times> 'a list list) list"

datatype 'a zobject = Array "'a list list" | Raw string

record 'a world =
  files :: "url \<Rightarrow> 'a dataset option"
  stores :: "url \<Rightarrow> (string \<times> 'a zobject) list"

definition chunks_along :: "dim \<Rightarrow> 'a dataset \<Rightarrow> 'a list list" where
  "chunks_along d ds = (case map_of ds d of Some cs \<Rightarrow> cs | None \<Rightarrow> [])"

text \<open>
  Modelled from the spec: an unreadable or missing source fails with the
  Source-Unavailable condition (section 4.2).
\<close>

definition ref_open :: "url \<Rightarrow> 'a world \<Rightarrow> error + 'a dataset" where
  "ref_open url w = (case files w url of None \<Rightarrow> Inl SourceUnavailable | Some f \<Rightarrow> Inr f)"

text \<open>
  Modelled from the spec: the combined dataset concatenates the opened sources along the
  concat dimension in the order of the list; the sources must have the same dimensions
  and agree on every other dimension, or the Dataset-Conflict condition results
  (section 4.2).  The batch is a non-empty list, and \<open>nested\<close> is the one way of
  combining that the source asks for.
\<close>

definition compatible :: "dim \<Rightarrow> 'a dataset \<Rightarrow> 'a dataset \<Rightarrow> bool" where
  "compatible concat_dim f g \<longleftrightarrow>
     map fst g = map fst f \<and> concat_dim \<in> set (map fst f) \<and>
     filter (\<lambda>p. fst p \<noteq> concat_dim) g = filter (\<lambda>p. fst p \<noteq> concat_dim) f"

definition ref_open_mfdataset :: "'a dataset list \<Rightarrow> string \<Rightarrow> dim \<Rightarrow> error + 'a dataset" where
  "ref_open_mfdataset fs combine concat_dim =
     (case fs of
        [] \<Rightarrow> Inl InvalidArgument
      | f # _ \<Rightarrow>
          if combine \<noteq> ''nested'' then Inl InvalidArgument
          else if list_all (compatible concat_dim f) fs
          then Inr (map (\<lambda>(d, cs). if d = concat_dim
                                     then (d, concat (map (chunks_along d) fs)) else (d, cs)) f)
          else Inl DatasetConflict)"

text \<open>
  Modelled from the spec: a chunk is a contiguous unit of data along a dimension
  (glossary).  The dictionary that the source passes to \<open>ds.chunk\<close> maps a dimension to
  a chunk size, the number of slices of one chunk: re-chunking a dimension with size \<open>k\<close>
  regroups its slices, in order, into chunks of \<open>k\<close> slices, the last chunk holding the
  remainder.  A size of zero and a name that is no dimension of the dataset are invalid.
\<close>

definition blocks :: "nat \<Rightarrow> 'a list \<Rightarrow> 'a list list" where
  "blocks k xs = map (\<lambda>i. take k (drop (i * k) xs)) [0..<(length xs + k - 1) div k]"

fun ref_chunk :: "'a dataset \<Rightarrow> (dim \<times> nat) list \<Rightarrow> error + 'a dataset" where
  "ref_chunk ds [] = Inr ds"
| "ref_chunk ds ((d, k) # rest) =
     (if k = 0 \<or> d \<notin> set (map fst ds) then Inl InvalidArgument
      else ref_chunk (map (\<lambda>(d', cs). if d' = d then (d', blocks k (concat cs)) else (d', cs)) ds)
             rest)"

text \<open>
  Modelled from the spec: the target store is addressed by its locator, and it is empty
  when it holds no key (sections 3 and 6).
\<close>

definition ref_get_mapper :: "url \<Rightarrow> 'a world \<Rightarrow> error + url" where
  "ref_get_mapper target w = Inr target"

definition ref_len :: "url \<Rightarrow> 'a world \<Rightarrow> error + nat" where
  "ref_len mapper w = Inr (length (remdups (map fst (stores w mapper))))"

text \<open>
  Modelled from the spec: an initial write creates the store fresh, whatever it held
  before; an append write along the append dimension extends the content and overwrites
  nothing, so the store afterwards holds the prior content followed by the batch
  (sections 4.2 and 8).  An append that the store cannot take (the store holds no array
  for a dimension of the batch, or the batch differs from the store on a dimension other
  than the append dimension) is rejected with the Storage-Access condition and leaves
  the store as it was.
\<close>

definition zarr_of :: "'a dataset \<Rightarrow> (string \<times> 'a zobject) list" where
  "zarr_of ds = map (\<lambda>(d, cs). (d, Array cs)) ds"

definition fits :: "dim \<Rightarrow> (string \<times> 'a zobject) list \<Rightarrow> dim \<times> 'a list list \<Rightarrow> bool" where
  "fits append_dim store p =
     (case map_of store (fst p) of
        Some (Array old) \<Rightarrow> fst p = append_dim \<or> concat old = concat (snd p)
      | _ \<Rightarrow> False)"

fun extend_array :: "'a zobject \<Rightarrow> 'a list list \<Rightarrow> 'a zobject" where
  "extend_array (Array old) new = Array (old @ new)"
| "extend_array (Raw b) new = Raw b"

definition append_zarr ::
  "dim \<Rightarrow> 'a dataset \<Rightarrow> (string \<times> 'a zobject) list \<Rightarrow> error + (string \<times> 'a zobject) list" where
  "append_zarr append_dim ds store =
     (if append_dim \<in> set (map fst ds) \<and> list_all (fits append_dim store) ds
      then Inr (map (\<lambda>(k, v). if k = append_dim
                                then (k, extend_array v (chunks_along append_dim ds)) else (k, v)) store)
      else Inl StorageAccess)"

definition ref_to_zarr :: "'a dataset \<Rightarrow> url \<Rightarrow> kwargs \<Rightarrow> 'a world \<Rightarrow> error option \<times> 'a world" where
  "ref_to_zarr ds mapper kwargs w =
     (case (map_of kwargs ''mode'', map_of kwargs ''append_dim'') of
        (Some m, None) \<Rightarrow>
          if m = ''w'' then (None, w\<lparr>stores := (stores w)(mapper := zarr_of ds)\<rparr>)
          else (Some InvalidArgument, w)
      | (Some m, Some d) \<Rightarrow>
          if m = ''a'' then
            (case append_zarr d ds (stores w mapper) of
               Inl e \<Rightarrow> (Some e, w)
             | Inr store' \<Rightarrow> (None, w\<lparr>stores := (stores w)(mapper := store')\<rparr>))
          else (Some InvalidArgument, w)
      | (None, _) \<Rightarrow> (Some InvalidArgument, w))"

definition reference :: "('a dataset, 'a dataset, url, 'a world, error) library" where
  "reference =
     \<lparr>fsspec_open = ref_open, open_mfdataset = ref_open_mfdataset, ds_chunk = ref_chunk,
      get_mapper = ref_get_mapper, mapper_len = ref_len, to_zarr = ref_to_zarr\<rparr>"

section \<open>The provisioning declaration\<close>

text \<open>
  \<open>BakeryStack.__init__\<close> declares resources and has no control flow; the model is
  the data it declares.  The constructs are those of the cloud development kit, which
  is not part of the sources: a construct is a record of the properties the source
  passes to it.
\<close>

datatype subnet_type = PUBLIC | PRIVATE | ISOLATED

datatype platform_version = LATEST | VERSION1_4 | VERSION1_3

datatype propagated_tag_source = SERVICE | TASK_DEFINITION | NO_TAGS

datatype key_error = KeyError string

record subnet_configuration =
  subnet_name :: string
  subnet_type :: subnet_type

record vpc =
  vpc_id :: string
  cidr :: string
  enable_dns_hostnames :: bool
  enable_dns_support :: bool
  nat_gateways :: nat
  subnet_configuration :: "subnet_configuration list"
  max_azs :: nat

record cluster =
  cluster_id :: string
  cluster_vpc :: vpc

record secret =
  secret_id :: string
  secret_arn :: string
  secret_field :: string

record port_mapping =
  container_port :: nat
  host_port :: nat

record container =
  container_id :: string
  image_directory :: string
  port_mappings :: "port_mapping list"
  stream_prefix :: string
  secrets :: "(string \<times> secret) list"

record task_definition =
  task_definition_id :: string
  cpu :: nat
  memory_limit_mib :: nat
  containers :: "container list"

record health_check =
  path :: string
  port :: string

record service =
  service_id :: string
  public_load_balancer :: bool
  assign_public_ip :: bool
  platform_version :: platform_version
  desired_count :: nat
  service_task_definition :: task_definition
  service_cluster :: cluster
  propagate_tags :: propagated_tag_source
  health_check :: "health_check option"

record stack =
  stack_id :: string
  stack_vpc :: vpc
  stack_cluster :: cluster
  stack_service :: service

text \<open>
  \<^verbatim>\<open>prefect_ecs_agent_task_definition.add_container(...)\<close> adds a container to the task
  definition it is called on.
\<close>

definition add_container :: "task_definition \<Rightarrow> container \<Rightarrow> task_definition" where
  "add_container td c = td\<lparr>containers := containers td @ [c]\<rparr>"

text \<open>
  Modelled from the spec: the construct \<open>ApplicationLoadBalancedFargateService\<close> of
  \<open>aws_ecs_patterns\<close> is absent from the sources.  By section 4.3 the service it
  declares is load-balanced externally; the source does not pass the property, so this
  is what the construct does by itself.  The other properties are the arguments of the
  source, and the health check is not configured yet.
\<close>

definition ApplicationLoadBalancedFargateService ::
  "string \<Rightarrow> bool \<Rightarrow> platform_version \<Rightarrow> nat \<Rightarrow> task_definition \<Rightarrow> cluster \<Rightarrow>
   propagated_tag_source \<Rightarrow> service" where
  "ApplicationLoadBalancedFargateService ident public_ip version count' td cl tags =
     \<lparr>service_id = ident, public_load_balancer = True, assign_public_ip = public_ip,
      platform_version = version, desired_count = count', service_task_definition = td,
      service_cluster = cl, propagate_tags = tags, health_check = None\<rparr>"

text \<open>
  \<^verbatim>\<open>prefect_ecs_agent_service.target_group.configure_health_check(path=..., port=...)\<close>
  sets the health check of the target group of the service.
\<close>

definition configure_health_check :: "service \<Rightarrow> string \<Rightarrow> string \<Rightarrow> service" where
  "configure_health_check svc path' port' = svc\<lparr>health_check := Some \<lparr>path = path', port = port'\<rparr>\<rparr>"

text \<open>
  The constructor, statement by statement.  \<open>environ\<close> is \<^verbatim>\<open>os.environ\<close>; the lookup
  of \<^verbatim>\<open>RUNNER_TOKEN_SECRET_ARN\<close> raises \<open>KeyError\<close> when the variable is not set.
\<close>

definition BakeryStack :: "(string \<rightharpoonup> string) \<Rightarrow> string \<Rightarrow> string \<Rightarrow> key_error + stack" where
  "BakeryStack environ construct_id identifier =
     (let vpc = \<lparr>vpc_id = ''bakery-vpc-'' @ identifier, cidr = ''10.0.0.0/16'',
                 enable_dns_hostnames = True, enable_dns_support = True, nat_gateways = 0,
                 subnet_configuration =
                   [\<lparr>subnet_name = ''PublicSubnet1'', subnet_type = PUBLIC\<rparr>],
                 max_azs = 3\<rparr>;
          cluster = \<lparr>cluster_id = ''bakery-cluster-'' @ identifier, cluster_vpc = vpc\<rparr>;
          prefect_ecs_agent_task_definition =
            \<lparr>task_definition_id = ''prefect-ecs-agent-task-definition-'' @ identifier,
             cpu = 512, memory_limit_mib = 2048, containers = []\<rparr>
      in case environ ''RUNNER_TOKEN_SECRET_ARN'' of
           None \<Rightarrow> Inl (KeyError ''RUNNER_TOKEN_SECRET_ARN'')
         | Some arn \<Rightarrow>
             (let runner_token_secret =
                    \<lparr>secret_id = ''prefect-cloud-runner-token-'' @ identifier,
                     secret_arn = arn, secret_field = ''RUNNER_TOKEN''\<rparr>;
                  prefect_ecs_agent_task_definition =
                    add_container prefect_ecs_agent_task_definition
                      \<lparr>container_id = ''prefect-ecs-agent-task-container-'' @ identifier,
                       image_directory = ''cdk/agent'',
                       port_mappings = [\<lparr>container_port = 8080, host_port = 8080\<rparr>],
                       stream_prefix = ''ecs-agent'',
                       secrets = [(''PREFECT__CLOUD__AGENT__AUTH_TOKEN'', runner_token_secret)]\<rparr>;
                  prefect_ecs_agent_service =
                    ApplicationLoadBalancedFargateService
                      (''prefect-ecs-agent-service-'' @ identifier) True LATEST 1
                      prefect_ecs_agent_task_definition cluster SERVICE;
                  prefect_ecs_agent_service =
                    configure_health_check prefect_ecs_agent_service ''/api/health'' ''8080''
              in Inr \<lparr>stack_id = construct_id, stack_vpc = vpc, stack_cluster = cluster,
                      stack_service = prefect_ecs_agent_service\<rparr>))"

text \<open>
  The decimal numeral of a natural number, to compare the port of the health check, a
  string, with the port of the container, a number.
\<close>

fun decimal :: "nat \<Rightarrow> string" where
  "decimal n =
     (if n < 10 then [''0123456789'' ! n]
      else decimal (n div 10) @ [''0123456789'' ! (n mod 10)])"

declare decimal.simps [simp del]

definition environ0 :: "string \<rightharpoonup> string" where
  "environ0 = [''RUNNER_TOKEN_SECRET_ARN'' \<mapsto> ''arn:aws:secretsmanager:us-west-2:1:secret:token'']"

section \<open>Example storage\<close>

text \<open>
  Three source files in the manner of the example of the docstring, which cuts a
  dataset along \<open>time\<close> into files of several time steps each: two files that
  continue each other and a third one that differs on the dimension \<open>x\<close>.  \<open>world0\<close>
  has no store yet, \<open>world1\<close> holds the first file in the target store, and the target
  of \<open>world_notes\<close> holds one object that is no array.
\<close>

definition src0 :: "nat dataset" where
  "src0 = [(''time'', [[0, 1, 2]]), (''x'', [[7, 8]])]"

definition src1 :: "nat dataset" where
  "src1 = [(''time'', [[3, 4, 5]]), (''x'', [[7, 8]])]"

definition src2 :: "nat dataset" where
  "src2 = [(''time'', [[6]]), (''x'', [[9]])]"

definition cache :: "url \<Rightarrow> nat dataset option" where
  "cache = [''cache/0.nc'' \<mapsto> src0, ''cache/1.nc'' \<mapsto> src1, ''cache/2.nc'' \<mapsto> src2]"

definition world0 :: "nat world" where
  "world0 = \<lparr>files = cache, stores = (\<lambda>u. [])\<rparr>"

definition world1 :: "nat world" where
  "world1 = \<lparr>files = cache,
     stores = (\<lambda>u. [])(''target.zarr'' := [(''time'', Array [[0], [1], [2]]), (''x'', Array [[7, 8]])])\<rparr>"

definition world2 :: "nat world" where
  "world2 = \<lparr>files = cache,
     stores = (\<lambda>u. [])(''target.zarr'' :=
       [(''time'', Array [[0], [1], [2], [3], [4], [5]]), (''x'', Array [[7, 8]])])\<rparr>"

definition world3 :: "nat world" where
  "world3 = \<lparr>files = cache,
     stores = (\<lambda>u. [])(''target.zarr'' :=
       [(''time'', Array [[0], [1], [2], [3], [4], [5], [3], [4], [5]]), (''x'', Array [[7, 8]])])\<rparr>"

definition world_notes :: "nat world" where
  "world_notes = \<lparr>files = cache, stores = (\<lambda>u. [])(''target.zarr'' := [(''notes.txt'', Raw ''to do'')])\<rparr>"

section \<open>Properties of the partitioner\<close>

lemma tuples_Nil: "tuples n [] = []"
  by (simp add: tuples.simps)

lemma tuples_step:
  "0 < n \<Longrightarrow> xs \<noteq> [] \<Longrightarrow> tuples n xs = take n xs # tuples n (drop n xs)"
  by (subst tuples.simps) simp

lemma concat_tuples: "0 < n \<Longrightarrow> concat (tuples n xs) = xs"
proof (induction n xs rule: tuples.induct)
  case (1 n xs)
  show ?case
  proof (cases "xs = []")
    case True
    then show ?thesis by (simp add: tuples_Nil)
  next
    case False
    with 1 show ?thesis by (simp add: tuples_step)
  qed
qed

lemma tuples_eq_Nil: "0 < n \<Longrightarrow> tuples n xs = [] \<longleftrightarrow> xs = []"
  by (cases "xs = []") (simp_all add: tuples_Nil tuples_step)

lemma butlast_tuples: "0 < n \<Longrightarrow> t \<in> set (butlast (tuples n xs)) \<Longrightarrow> length t = n"
proof (induction n xs arbitrary: t rule: tuples.induct)
  case (1 n xs)
  show ?case
  proof (cases "xs = []")
    case True
    with 1 show ?thesis by (simp add: tuples_Nil)
  next
    case False
    show ?thesis
    proof (cases "drop n xs = []")
      case True
      with False 1 show ?thesis by (simp add: tuples_step tuples_Nil)
    next
      case dr: False
      then have "tuples n (drop n xs) \<noteq> []"
        using 1(2) by (simp add: tuples_eq_Nil)
      with 1 False dr show ?thesis
        by (auto simp: tuples_step [of n xs])
    qed
  qed
qed

lemma nth_tuples:
  assumes n: "0 < n" and i: "Suc i < length (tuples n xs)"
  shows "length (tuples n xs ! i) = n"
proof -
  from i have "i < length (butlast (tuples n xs))" by simp
  then have "butlast (tuples n xs) ! i \<in> set (butlast (tuples n xs))"
    by (rule nth_mem)
  moreover have "butlast (tuples n xs) ! i = tuples n xs ! i"
    using i by (simp add: nth_butlast)
  ultimately show ?thesis using butlast_tuples [OF n] by simp
qed

lemma last_tuples:
  "0 < n \<Longrightarrow> xs \<noteq> [] \<Longrightarrow>
   length (last (tuples n xs)) = (if length xs mod n = 0 then n else length xs mod n)"
proof (induction n xs rule: tuples.induct)
  case (1 n xs)
  show ?case
  proof (cases "drop n xs = []")
    case True
    then have le: "length xs \<le> n" by simp
    have "length xs \<noteq> 0" using 1(3) by simp
    with le 1 True show ?thesis
      by (cases "length xs = n") (simp_all add: tuples_step tuples_Nil)
  next
    case dr: False
    then have ne: "tuples n (drop n xs) \<noteq> []"
      using 1(2) by (simp add: tuples_eq_Nil)
    from dr have "n < length xs" by simp
    then have "(length xs - n) mod n = length xs mod n"
      by (simp add: le_mod_geq)
    with 1 dr ne show ?thesis
      by (simp add: tuples_step [of n xs])
  qed
qed

text \<open>
  C3.  For every sequence \<open>S\<close> and every positive \<open>n\<close> the partitioner returns tuples
  whose concatenation, in order, is \<open>S\<close>; every tuple but the last has length \<open>n\<close>; the
  last tuple has length \<open>len(S) mod n\<close>, or \<open>n\<close> when \<open>n\<close> divides \<open>len(S)\<close>; and the
  empty sequence yields the empty result.
\<close>

theorem chunk_partition:
  assumes "0 < n"
  shows "\<exists>ts. chunk S n = Inr ts \<and> concat ts = S \<and>
           (\<forall>i. Suc i < length ts \<longrightarrow> length (ts ! i) = nat n) \<and>
           (S \<noteq> [] \<longrightarrow> ts \<noteq> [] \<and>
              length (last ts) = (if length S mod nat n = 0 then nat n else length S mod nat n)) \<and>
           (S = [] \<longrightarrow> ts = [])"
proof -
  from assms have pos: "0 < nat n" by simp
  have "chunk S n = Inr (tuples (nat n) S)"
    using assms by (simp add: chunk_def chunked_iterable_def)
  moreover have "concat (tuples (nat n) S) = S"
    using pos by (rule concat_tuples)
  moreover have "\<forall>i. Suc i < length (tuples (nat n) S) \<longrightarrow> length (tuples (nat n) S ! i) = nat n"
    using pos by (simp add: nth_tuples)
  moreover have "S \<noteq> [] \<longrightarrow> tuples (nat n) S \<noteq> [] \<and>
      length (last (tuples (nat n) S)) =
        (if length S mod nat n = 0 then nat n else length S mod nat n)"
    using pos by (simp add: tuples_eq_Nil last_tuples)
  moreover have "S = [] \<longrightarrow> tuples (nat n) S = []"
    by (simp add: tuples_Nil)
  ultimately show ?thesis by blast
qed

theorem chunk_partition_witness:
  "(0::int) < 2 \<and> chunk [1, 2, 3, 4, 5 :: int] 2 = Inr [[1, 2], [3, 4], [5]] \<and>
   (\<exists>ts. chunk [1, 2, 3, 4, 5 :: int] 2 = Inr ts \<and> concat ts = [1, 2, 3, 4, 5] \<and>
      (\<forall>i. Suc i < length ts \<longrightarrow> length (ts ! i) = 2) \<and> length (last ts) = 1)"
proof -
  have ev: "chunk [1, 2, 3, 4, 5 :: int] 2 = Inr [[1, 2], [3, 4], [5]]"
    by (simp add: chunk_def chunked_iterable_def tuples.simps)
  show ?thesis
    using chunk_partition [of 2 "[1, 2, 3, 4, 5 :: int]"] ev by simp
qed

section \<open>Properties of the combiner that hold for every library\<close>

lemma snd_write_result: "snd (write_result target p) = snd p"
  by (cases p) (simp add: write_result_def split: option.splits)

lemma combine_and_write_reaches_write:
  assumes "double_open_files lib sources w = Inr fs"
    and "open_mfdataset lib fs ''nested'' concat_dim = Inr ds"
    and "ds_chunk lib ds [(append_dim, length sources)] = Inr ds'"
    and "get_mapper lib target w = Inr mapper"
    and "mapper_len lib mapper w = Inr n"
  shows "combine_and_write lib sources target append_dim concat_dim w =
         write_result target (to_zarr lib ds' mapper
           (if n = 0 then [(''mode'', ''w'')] else [(''mode'', ''a''), (''append_dim'', append_dim)]) w)"
  using assms by (simp add: combine_and_write_def write_result_def Let_def)

lemma combine_and_write_cases:
  "(\<exists>e. combine_and_write lib sources target append_dim concat_dim w = (Inl e, w)) \<or>
   (\<exists>fs ds ds' mapper n.
      double_open_files lib sources w = Inr fs \<and>
      open_mfdataset lib fs ''nested'' concat_dim = Inr ds \<and>
      ds_chunk lib ds [(append_dim, length sources)] = Inr ds' \<and>
      get_mapper lib target w = Inr mapper \<and>
      mapper_len lib mapper w = Inr n \<and>
      combine_and_write lib sources target append_dim concat_dim w =
        write_result target (to_zarr lib ds' mapper
          (if n = 0 then [(''mode'', ''w'')] else [(''mode'', ''a''), (''append_dim'', append_dim)]) w))"
proof (cases "double_open_files lib sources w")
  case (Inl e)
  then show ?thesis by (simp add: combine_and_write_def)
next
  case fs: (Inr fs)
  show ?thesis
  proof (cases "open_mfdataset lib fs ''nested'' concat_dim")
    case (Inl e)
    with fs show ?thesis by (simp add: combine_and_write_def)
  next
    case ds: (Inr ds)
    show ?thesis
    proof (cases "ds_chunk lib ds [(append_dim, length sources)]")
      case (Inl e)
      with fs ds show ?thesis by (simp add: combine_and_write_def)
    next
      case ds': (Inr ds')
      show ?thesis
      proof (cases "get_mapper lib target w")
        case (Inl e)
        with fs ds ds' show ?thesis by (simp add: combine_and_write_def)
      next
        case m: (Inr mapper)
        show ?thesis
        proof (cases "mapper_len lib mapper w")
          case (Inl e)
          with fs ds ds' m show ?thesis by (simp add: combine_and_write_def)
        next
          case (Inr n)
          with fs ds ds' m show ?thesis
            using combine_and_write_reaches_write [OF fs ds ds' m Inr] by simp
        qed
      qed
    qed
  qed
qed

section \<open>The reference library on the example storage\<close>

lemmas ref_calls = combine_and_write_def reference_def ref_open_def ref_open_mfdataset_def
  ref_get_mapper_def ref_len_def ref_to_zarr_def append_zarr_def zarr_of_def fits_def
  compatible_def chunks_along_def

lemmas ref_defs = ref_calls blocks_def

lemmas ex_defs = world0_def world1_def world2_def world3_def world_notes_def cache_def src0_def src1_def src2_def

lemma first_batch:
  "combine_and_write reference [''cache/0.nc''] ''target.zarr'' ''time'' ''time'' world0 =
     (Inr ''target.zarr'', world1)"
  by (simp add: ref_defs ex_defs)


lemma missing_source:
  "double_open_files reference [''cache/0.nc'', ''cache/9.nc''] world1 = Inl SourceUnavailable"
  by (simp add: ref_defs ex_defs)

lemma conflicting_sources:
  "double_open_files reference [''cache/0.nc'', ''cache/2.nc''] world1 = Inr [src0, src2] \<and>
   open_mfdataset reference [src0, src2] ''nested'' ''time'' = Inl DatasetConflict"
  by (simp add: ref_defs ex_defs)

lemma no_such_dimension:
  "double_open_files reference [''cache/0.nc''] world1 = Inr [src0] \<and>
   open_mfdataset reference [src0] ''nested'' ''time'' = Inr src0 \<and>
   ds_chunk reference src0 [(''lat'', length [''cache/0.nc''])] = Inl InvalidArgument"
  by (simp add: ref_defs ex_defs)

lemma notes_batch:
  "double_open_files reference [''cache/0.nc''] world_notes = Inr [src0] \<and>
   open_mfdataset reference [src0] ''nested'' ''time'' = Inr src0 \<and>
   ds_chunk reference src0 [(''time'', length [''cache/0.nc''])] =
     Inr [(''time'', [[0], [1], [2]]), (''x'', [[7, 8]])] \<and>
   get_mapper reference ''target.zarr'' world_notes = Inr ''target.zarr'' \<and>
   mapper_len reference ''target.zarr'' world_notes = Inr 1"
  by (simp add: ref_defs ex_defs)

section \<open>The reference library: what a successful call has done\<close>

lemma map_of_map_upd:
  "map_of (map (\<lambda>(k, v). if k = d then (k, f v) else (k, v)) xs) k' =
   map_option (\<lambda>v. if k' = d then f v else v) (map_of xs k')"
  by (induction xs) auto

lemma map_fst_map_upd:
  "map fst (map (\<lambda>(k, v). if k = d then (k, f v) else (k, v)) xs) = map fst xs"
  by (induction xs) auto

lemma map_of_zarr_of: "map_of (zarr_of ds) k = map_option Array (map_of ds k)"
  by (induction ds) (auto simp: zarr_of_def)

lemma double_open_files_reference:
  "double_open_files reference sources w = Inr fs \<longleftrightarrow> map (files w) sources = map Some fs"
proof (induction sources arbitrary: fs)
  case Nil
  then show ?case by auto
next
  case (Cons u us)
  show ?case
  proof (cases "files w u")
    case None
    then show ?thesis by (auto simp: reference_def ref_open_def)
  next
    case (Some f)
    have sel: "fsspec_open reference = ref_open" by (simp add: reference_def)
    show ?thesis
    proof (cases "double_open_files reference us w")
      case (Inl e)
      with Cons [of "tl fs"] Some show ?thesis
        by (cases fs) (auto simp: sel ref_open_def)
    next
      case (Inr gs)
      with Cons Some show ?thesis
        by (cases fs) (auto simp: sel ref_open_def)
    qed
  qed
qed

lemma ref_write_fresh:
  "ref_to_zarr ds m [(''mode'', ''w'')] w = (None, w\<lparr>stores := (stores w)(m := zarr_of ds)\<rparr>)"
  by (simp add: ref_to_zarr_def)

lemma ref_write_append:
  "ref_to_zarr ds m [(''mode'', ''a''), (''append_dim'', d)] w =
     (case append_zarr d ds (stores w m) of
        Inl e \<Rightarrow> (Some e, w)
      | Inr store' \<Rightarrow> (None, w\<lparr>stores := (stores w)(m := store')\<rparr>))"
  by (simp add: ref_to_zarr_def)

lemma ref_len_zero: "ref_len m w = Inr n \<Longrightarrow> n = 0 \<longleftrightarrow> stores w m = []"
  by (auto simp: ref_len_def)

lemma reference_success:
  assumes "combine_and_write reference sources target append_dim concat_dim w = (Inr r, w')"
  shows "\<exists>fs ds ds'. map (files w) sources = map Some fs \<and>
           ref_open_mfdataset fs ''nested'' concat_dim = Inr ds \<and>
           ref_chunk ds [(append_dim, length sources)] = Inr ds' \<and>
           (if stores w target = [] then w' = w\<lparr>stores := (stores w)(target := zarr_of ds')\<rparr>
            else append_zarr append_dim ds' (stores w target) = Inr (stores w' target) \<and>
                 w' = w\<lparr>stores := (stores w)(target := stores w' target)\<rparr>)"
  using combine_and_write_cases [of reference sources target append_dim concat_dim w]
proof (elim disjE exE conjE)
  fix e
  assume "combine_and_write reference sources target append_dim concat_dim w = (Inl e, w)"
  with assms show ?thesis by simp
next
  fix fs ds ds' mapper n
  assume fs: "double_open_files reference sources w = Inr fs"
    and ds: "open_mfdataset reference fs ''nested'' concat_dim = Inr ds"
    and ds': "ds_chunk reference ds [(append_dim, length sources)] = Inr ds'"
    and m: "get_mapper reference target w = Inr mapper"
    and n: "mapper_len reference mapper w = Inr n"
    and eq: "combine_and_write reference sources target append_dim concat_dim w =
        write_result target (to_zarr reference ds' mapper
          (if n = 0 then [(''mode'', ''w'')] else [(''mode'', ''a''), (''append_dim'', append_dim)]) w)"
  from m have mapper: "mapper = target" by (simp add: reference_def ref_get_mapper_def)
  from n mapper have len: "ref_len target w = Inr n" by (simp add: reference_def)
  have tz: "to_zarr reference = ref_to_zarr" by (simp add: reference_def)
  have 1: "map (files w) sources = map Some fs"
    using fs by (simp add: double_open_files_reference)
  have 2: "ref_open_mfdataset fs ''nested'' concat_dim = Inr ds"
    using ds by (simp add: reference_def)
  have 3: "ref_chunk ds [(append_dim, length sources)] = Inr ds'"
    using ds' by (simp add: reference_def)
  have 4: "if stores w target = [] then w' = w\<lparr>stores := (stores w)(target := zarr_of ds')\<rparr>
            else append_zarr append_dim ds' (stores w target) = Inr (stores w' target) \<and>
                 w' = w\<lparr>stores := (stores w)(target := stores w' target)\<rparr>"
  proof (cases "stores w target = []")
    case True
    with len have "n = 0" by (simp add: ref_len_zero)
    with eq assms mapper True show ?thesis
      by (simp add: tz ref_write_fresh write_result_def)
  next
    case False
    with len have "n \<noteq> 0" by (simp add: ref_len_zero)
    with eq assms mapper False show ?thesis
      by (auto simp: tz ref_write_append write_result_def split: sum.splits)
  qed
  from 1 2 3 4 show ?thesis by blast
qed


lemma append_zarr_Inr:
  assumes "append_zarr d ds store = Inr store'"
  shows "store' = map (\<lambda>(k, v). if k = d then (k, extend_array v (chunks_along d ds)) else (k, v)) store"
    and "d \<in> set (map fst ds)"
    and "list_all (fits d store) ds"
  using assms by (auto simp: append_zarr_def split: if_splits)

lemma fits_append_dim:
  assumes "d \<in> set (map fst ds)" and "list_all (fits d store) ds"
  shows "\<exists>old. map_of store d = Some (Array old)"
proof -
  from assms(1) obtain p where p: "p \<in> set ds" "fst p = d" by auto
  with assms(2) have "fits d store p" by (simp add: list_all_iff)
  with p show ?thesis
    by (auto simp: fits_def split: option.splits zobject.splits)
qed

lemma fits_extended:
  assumes "fits d store p"
  shows "fits d (map (\<lambda>(k, v). if k = d then (k, extend_array v new) else (k, v)) store) p"
  using assms
  by (auto simp: fits_def map_of_map_upd split: option.splits zobject.splits)

lemma appended:
  assumes "append_zarr d ds store = Inr store'"
  shows "map fst store' = map fst store"
    and "\<exists>old. map_of store d = Some (Array old) \<and>
           map_of store' d = Some (Array (old @ chunks_along d ds))"
    and "k \<noteq> d \<Longrightarrow> map_of store' k = map_of store k"
proof -
  note a = append_zarr_Inr [OF assms]
  show "map fst store' = map fst store"
    unfolding a(1) by (rule map_fst_map_upd)
  from fits_append_dim [OF a(2) a(3)] obtain old where "map_of store d = Some (Array old)" ..
  then show "\<exists>old. map_of store d = Some (Array old) \<and>
           map_of store' d = Some (Array (old @ chunks_along d ds))"
    by (simp add: a(1) map_of_map_upd)
  show "map_of store' k = map_of store k" if "k \<noteq> d"
    using that by (simp add: a(1) map_of_map_upd option.map_ident)
qed

lemma append_zarr_again:
  assumes "append_zarr d ds store = Inr store'"
  shows "\<exists>store''. append_zarr d ds store' = Inr store''"
proof -
  note a = append_zarr_Inr [OF assms]
  have "list_all (fits d store') ds"
    using a(3) by (simp add: a(1) list_all_iff fits_extended)
  with a(2) show ?thesis by (simp add: append_zarr_def)
qed


lemma concat_blocks_take:
  "concat (map (\<lambda>i. take k (drop (i * k) xs)) [0..<m]) = take (m * k) xs"
proof (induction m)
  case 0
  then show ?case by simp
next
  case (Suc m)
  have "take (m * k + k) xs = take (m * k) xs @ take k (drop (m * k) xs)"
    by (rule take_add)
  with Suc show ?case by (simp add: add.commute)
qed

lemma blocks_cover: "0 < k \<Longrightarrow> n \<le> (n + k - 1) div k * k" for n k :: nat
proof -
  assume k: "0 < k"
  have "(n + k - 1) div k * k + (n + k - 1) mod k = n + k - 1" by simp
  moreover have "(n + k - 1) mod k < k" using k by simp
  ultimately show ?thesis by linarith
qed

lemma concat_blocks: "0 < k \<Longrightarrow> concat (blocks k xs) = xs"
proof -
  assume "0 < k"
  then have "length xs \<le> (length xs + k - 1) div k * k" by (rule blocks_cover)
  then show ?thesis
    unfolding blocks_def concat_blocks_take by (rule take_all)
qed

lemma ref_open_mfdataset_Inr:
  assumes "ref_open_mfdataset fs ''nested'' concat_dim = Inr ds"
  shows "chunks_along concat_dim ds = concat (map (chunks_along concat_dim) fs)"
proof (cases fs)
  case Nil
  with assms show ?thesis by (simp add: ref_open_mfdataset_def)
next
  case (Cons f gs)
  with assms have all: "list_all (compatible concat_dim f) (f # gs)"
    and ds: "ds = map (\<lambda>(d, cs). if d = concat_dim
        then (d, concat (map (chunks_along d) (f # gs))) else (d, cs)) f"
    by (auto simp: ref_open_mfdataset_def split: if_splits)
  from all have "concat_dim \<in> set (map fst f)" by (simp add: compatible_def)
  then obtain cs where "map_of f concat_dim = Some cs"
    by (metis map_of_eq_None_iff not_Some_eq set_map)
  moreover have "ds = map (\<lambda>(d, cs). if d = concat_dim
      then (d, (\<lambda>_. concat (map (chunks_along concat_dim) (f # gs))) cs) else (d, cs)) f"
    unfolding ds by (rule map_cong) auto
  ultimately have "map_of ds concat_dim = Some (concat (map (chunks_along concat_dim) (f # gs)))"
    by (simp only: map_of_map_upd) simp
  with Cons show ?thesis by (simp add: chunks_along_def)
qed

lemma ref_chunk_Inr:
  assumes "ref_chunk ds [(d, k)] = Inr ds'"
  shows "concat (chunks_along d' ds') = concat (chunks_along d' ds)"
proof -
  from assms have k: "0 < k"
    and ds': "ds' = map (\<lambda>(d', cs). if d' = d then (d', blocks k (concat cs)) else (d', cs)) ds"
    by (auto split: if_splits)
  have "map_of ds' d' = map_option (\<lambda>cs. if d' = d then blocks k (concat cs) else cs) (map_of ds d')"
    unfolding ds' by (rule map_of_map_upd)
  then show ?thesis
    using k by (cases "map_of ds d'") (simp_all add: chunks_along_def concat_blocks)
qed

lemma second_batch:
  "combine_and_write reference [''cache/1.nc''] ''target.zarr'' ''time'' ''time'' world1 =
     (Inr ''target.zarr'', world2)"
  by (simp add: ref_defs ex_defs)

lemma second_batch_again:
  "combine_and_write reference [''cache/1.nc''] ''target.zarr'' ''time'' ''time'' world2 =
     (Inr ''target.zarr'', world3)"
  by (simp add: ref_defs ex_defs)

section \<open>Create on an empty store, append on any other\<close>



section \<open>The order of the sources\<close>

text \<open>
  C4.  The combined dataset of a batch holds, along the concat dimension, the chunks of
  the opened sources one after the other in the order of the list \<open>sources\<close>: a source
  that is listed twice is there twice, and a source listed earlier comes earlier.  When
  the call creates the store, the slices of the stored concat dimension are those of
  the sources in that order.
\<close>

theorem sources_concatenated_in_list_order:
  assumes "combine_and_write reference sources target append_dim concat_dim w = (Inr r, w')"
  shows "\<exists>fs ds. map (files w) sources = map Some fs \<and>
           ref_open_mfdataset fs ''nested'' concat_dim = Inr ds \<and>
           chunks_along concat_dim ds = concat (map (chunks_along concat_dim) fs) \<and>
           (stores w target = [] \<longrightarrow>
              (\<exists>cs. map_of (stores w' target) concat_dim = Some (Array cs) \<and>
                 concat cs = concat (concat (map (chunks_along concat_dim) fs))))"
proof -
  from reference_success [OF assms] obtain fs ds ds' where
    1: "map (files w) sources = map Some fs"
    and 2: "ref_open_mfdataset fs ''nested'' concat_dim = Inr ds"
    and 3: "ref_chunk ds [(append_dim, length sources)] = Inr ds'"
    and 4: "if stores w target = [] then w' = w\<lparr>stores := (stores w)(target := zarr_of ds')\<rparr>
            else append_zarr append_dim ds' (stores w target) = Inr (stores w' target) \<and>
                 w' = w\<lparr>stores := (stores w)(target := stores w' target)\<rparr>"
    by blast
  note 5 = ref_open_mfdataset_Inr [OF 2]
  have 6: "stores w target = [] \<longrightarrow>
      (\<exists>cs. map_of (stores w' target) concat_dim = Some (Array cs) \<and>
         concat cs = concat (concat (map (chunks_along concat_dim) fs)))"
  proof
    assume "stores w target = []"
    with 4 have "w' = w\<lparr>stores := (stores w)(target := zarr_of ds')\<rparr>" by simp
    then have "stores w' = (stores w)(target := zarr_of ds')" by simp
    then have st: "stores w' target = zarr_of ds'" by simp
    have "fs \<noteq> []" using 2 by (auto simp: ref_open_mfdataset_def)
    then obtain f gs where fs: "fs = f # gs" by (cases fs) auto
    with 2 have "list_all (compatible concat_dim f) (f # gs)"
      and ds: "map fst ds = map fst f"
      by (auto simp: ref_open_mfdataset_def split: if_splits)
    then have "concat_dim \<in> set (map fst ds)" by (simp add: compatible_def)
    moreover have "map fst ds' = map fst ds"
      using 3 by (auto split: if_splits)
    ultimately have "concat_dim \<in> set (map fst ds')" by simp
    then obtain cs where cs: "map_of ds' concat_dim = Some cs"
      by (metis map_of_eq_None_iff not_Some_eq set_map)
    then have "chunks_along concat_dim ds' = cs" by (simp add: chunks_along_def)
    with ref_chunk_Inr [OF 3, of concat_dim] 5
    have "concat cs = concat (concat (map (chunks_along concat_dim) fs))" by simp
    with cs st show "\<exists>cs. map_of (stores w' target) concat_dim = Some (Array cs) \<and>
         concat cs = concat (concat (map (chunks_along concat_dim) fs))"
      by (simp add: map_of_zarr_of)
  qed
  from 1 2 5 6 show ?thesis by blast
qed

theorem sources_concatenated_in_list_order_witness:
  "combine_and_write reference [''cache/1.nc'', ''cache/0.nc'', ''cache/1.nc''] ''target.zarr''
     ''time'' ''time'' world0 =
     (Inr ''target.zarr'', world0\<lparr>stores := (stores world0)(''target.zarr'' :=
        [(''time'', Array [[3, 4, 5], [0, 1, 2], [3, 4, 5]]), (''x'', Array [[7, 8]])])\<rparr>) \<and>
   concat [[3, 4, 5], [0, 1, 2], [3, 4, 5 :: nat]] =
     concat (concat (map (chunks_along ''time'') [src1, src0, src1]))"
proof -
  have h: "combine_and_write reference [''cache/1.nc'', ''cache/0.nc'', ''cache/1.nc'']
      ''target.zarr'' ''time'' ''time'' world0 =
     (Inr ''target.zarr'', world0\<lparr>stores := (stores world0)(''target.zarr'' :=
        [(''time'', Array [[3, 4, 5], [0, 1, 2], [3, 4, 5]]), (''x'', Array [[7, 8]])])\<rparr>)"
    by (simp add: ref_defs ex_defs upt_rec)
  show ?thesis
    using sources_concatenated_in_list_order [OF h] h
    by (simp add: ex_defs chunks_along_def)
qed

section \<open>Writing the same batch twice\<close>

text \<open>
  C6.  The call is not idempotent.  When a batch has been written with success to a
  store that held data, writing the same batch again succeeds as well and appends it
  again: the array of the append dimension is then the earlier array followed by the
  chunks of the batch twice, and the second call has changed the storage unless the
  batch has no chunk along the append dimension.
\<close>

theorem second_call_appends_again:
  assumes "stores w target \<noteq> []"
    and "combine_and_write reference sources target append_dim concat_dim w = (Inr r, w1)"
  shows "\<exists>fs ds ds' old w2. map (files w) sources = map Some fs \<and>
           ref_open_mfdataset fs ''nested'' concat_dim = Inr ds \<and>
           ref_chunk ds [(append_dim, length sources)] = Inr ds' \<and>
           map_of (stores w target) append_dim = Some (Array old) \<and>
           map_of (stores w1 target) append_dim = Some (Array (old @ chunks_along append_dim ds')) \<and>
           combine_and_write reference sources target append_dim concat_dim w1 = (Inr target, w2) \<and>
           map_of (stores w2 target) append_dim =
             Some (Array (old @ chunks_along append_dim ds' @ chunks_along append_dim ds')) \<and>
           (chunks_along append_dim ds' \<noteq> [] \<longrightarrow> w2 \<noteq> w1)"
proof -
  from reference_success [OF assms(2)] assms(1) obtain fs ds ds' where
    1: "map (files w) sources = map Some fs"
    and 2: "ref_open_mfdataset fs ''nested'' concat_dim = Inr ds"
    and 3: "ref_chunk ds [(append_dim, length sources)] = Inr ds'"
    and 4: "append_zarr append_dim ds' (stores w target) = Inr (stores w1 target)"
    and w1: "w1 = w\<lparr>stores := (stores w)(target := stores w1 target)\<rparr>"
    by auto
  from appended(2) [OF 4] obtain old where
    old: "map_of (stores w target) append_dim = Some (Array old)"
    and new: "map_of (stores w1 target) append_dim = Some (Array (old @ chunks_along append_dim ds'))"
    by blast
  from append_zarr_again [OF 4] obtain store2 where
    5: "append_zarr append_dim ds' (stores w1 target) = Inr store2" ..
  from appended(2) [OF 5] new have
    twice: "map_of store2 append_dim =
      Some (Array (old @ chunks_along append_dim ds' @ chunks_along append_dim ds'))"
    by auto
  define w2 where "w2 = w1\<lparr>stores := (stores w1)(target := store2)\<rparr>"
  have "files w1 = files w" by (subst w1) simp
  with 1 have a: "double_open_files reference sources w1 = Inr fs"
    by (simp add: double_open_files_reference)
  have b: "open_mfdataset reference fs ''nested'' concat_dim = Inr ds"
    and c: "ds_chunk reference ds [(append_dim, length sources)] = Inr ds'"
    and d: "get_mapper reference target w1 = Inr target"
    and e: "mapper_len reference target w1 = Inr (length (remdups (map fst (stores w1 target))))"
    using 2 3 by (simp_all add: reference_def ref_get_mapper_def ref_len_def)
  have "map fst (stores w1 target) = map fst (stores w target)"
    by (rule appended(1) [OF 4])
  with assms(1) have n: "length (remdups (map fst (stores w1 target))) \<noteq> 0" by simp
  have "combine_and_write reference sources target append_dim concat_dim w1 =
      write_result target
        (to_zarr reference ds' target [(''mode'', ''a''), (''append_dim'', append_dim)] w1)"
    using combine_and_write_reaches_write [OF a b c d e] n by simp
  also have "\<dots> = (Inr target, w2)"
    using 5 by (simp add: reference_def ref_write_append write_result_def w2_def)
  finally have call: "combine_and_write reference sources target append_dim concat_dim w1 =
      (Inr target, w2)" .
  have s2: "stores w2 target = store2" by (simp add: w2_def)
  have ne: "chunks_along append_dim ds' \<noteq> [] \<longrightarrow> w2 \<noteq> w1"
  proof (intro impI notI)
    assume "chunks_along append_dim ds' \<noteq> []" and "w2 = w1"
    with s2 twice new show False by simp
  qed
  from 1 2 3 old new call twice s2 ne show ?thesis by blast
qed


theorem second_call_appends_again_witness:
  "stores world1 ''target.zarr'' \<noteq> [] \<and>
   combine_and_write reference [''cache/1.nc''] ''target.zarr'' ''time'' ''time'' world1 =
     (Inr ''target.zarr'', world2) \<and>
   combine_and_write reference [''cache/1.nc''] ''target.zarr'' ''time'' ''time'' world2 =
     (Inr ''target.zarr'', world3) \<and>
   map_of (stores world3 ''target.zarr'') ''time'' =
     Some (Array ([[0], [1], [2]] @ [[3], [4], [5]] @ [[3], [4], [5]])) \<and>
   world3 \<noteq> world2"
proof -
  have ne: "stores world1 ''target.zarr'' \<noteq> []" by (simp add: ex_defs)
  have "stores world3 ''target.zarr'' \<noteq> stores world2 ''target.zarr''" by (simp add: ex_defs)
  then have "world3 \<noteq> world2" by auto
  then show ?thesis
    using second_call_appends_again [OF ne second_batch] ne second_batch second_batch_again
    by (simp add: ex_defs)
qed

section \<open>The chunks of a written batch\<close>

lemma blocks_single: "0 < length xs \<Longrightarrow> length xs \<le> k \<Longrightarrow> blocks k xs = [xs]"
proof -
  assume a: "0 < length xs" and b: "length xs \<le> k"
  have "(length xs + k - 1) div k = 1"
  proof (rule div_nat_eqI)
    show "k * 1 \<le> length xs + k - 1" using a by arith
    show "length xs + k - 1 < k * Suc 1" using a b by arith
  qed
  with b show ?thesis by (simp add: blocks_def)
qed

lemma blocks_two_of_six:
  "blocks (Suc (Suc 0)) [0, 1, 2, 3, 4, 5 :: nat] = [[0, 1], [2, 3], [4, 5]]"
  by code_simp

text \<open>
  C2.  The claim is that after the re-chunking the append dimension is one chunk that
  spans the whole batch.  The source passes the number of sources as the chunk size,
  which gives one chunk only while the batch has no more slices along the append
  dimension than it has sources.  On a batch of two sources of three time steps each
  the re-chunked dataset, and the store written from it, have the six time steps in
  three chunks of two.
\<close>

theorem chunk_size_is_number_of_sources:
  "ds_chunk reference [(''time'', [[0, 1, 2], [3, 4, 5]]), (''x'', [[7, 8 :: nat]])]
     [(''time'', length [''cache/0.nc'', ''cache/1.nc''])] =
     Inr [(''time'', [[0, 1], [2, 3], [4, 5]]), (''x'', [[7, 8]])] \<and>
   combine_and_write reference [''cache/0.nc'', ''cache/1.nc''] ''target.zarr'' ''time'' ''time''
     world0 =
     (Inr ''target.zarr'', world0\<lparr>stores := (stores world0)(''target.zarr'' :=
        [(''time'', Array [[0, 1], [2, 3], [4, 5]]), (''x'', Array [[7, 8]])])\<rparr>) \<and>
   [[0, 1], [2, 3], [4, 5]] \<noteq> [[0, 1, 2, 3, 4, 5 :: nat]]"
  by (simp add: ref_calls ex_defs blocks_two_of_six [simplified])

section \<open>The declared service\<close>

text \<open>
  C10.  The stack that the constructor declares has a service that is load-balanced
  externally, is assigned a public address and runs exactly one task; its health check
  is on the path \<open>/api/health\<close> and the port \<open>8080\<close>, which is the port of the one
  container of the task.
\<close>

theorem bakery_service:
  assumes "BakeryStack environ construct_id identifier = Inr st"
  shows "public_load_balancer (stack_service st) \<and> assign_public_ip (stack_service st) \<and>
         desired_count (stack_service st) = 1 \<and>
         health_check (stack_service st) = Some \<lparr>path = ''/api/health'', port = ''8080''\<rparr> \<and>
         (\<exists>c. containers (service_task_definition (stack_service st)) = [c] \<and>
            map container_port (port_mappings c) = [8080] \<and>
            map (\<lambda>m. decimal (container_port m)) (port_mappings c) = [''8080''])"
proof -
  have "decimal 8080 = ''8080''"
    by (simp add: decimal.simps)
  with assms show ?thesis
    by (auto simp: BakeryStack_def Let_def ApplicationLoadBalancedFargateService_def
        configure_health_check_def add_container_def split: option.splits)
qed

theorem bakery_service_witness:
  "(\<exists>st. BakeryStack environ0 ''bakery'' ''dev'' = Inr st \<and>
      service_id (stack_service st) = ''prefect-ecs-agent-service-dev'' \<and>
      public_load_balancer (stack_service st) \<and> assign_public_ip (stack_service st) \<and>
      desired_count (stack_service st) = 1 \<and>
      health_check (stack_service st) = Some \<lparr>path = ''/api/health'', port = ''8080''\<rparr>) \<and>
   BakeryStack Map.empty ''bakery'' ''dev'' = Inl (KeyError ''RUNNER_TOKEN_SECRET_ARN'')"
proof -
  obtain st where st: "BakeryStack environ0 ''bakery'' ''dev'' = Inr st"
    by (simp add: BakeryStack_def environ0_def Let_def)
  have "service_id (stack_service st) = ''prefect-ecs-agent-service-dev''"
    using st
    by (auto simp: BakeryStack_def environ0_def Let_def ApplicationLoadBalancedFargateService_def
        configure_health_check_def)
  moreover have "BakeryStack Map.empty ''bakery'' ''dev'' = Inl (KeyError ''RUNNER_TOKEN_SECRET_ARN'')"
    by (simp add: BakeryStack_def Let_def)
  ultimately show ?thesis
    using bakery_service [OF st] st by simp
qed

section \<open>The returned locator\<close>

text \<open>
  C5.  Every successful call of \<open>combine_and_write\<close> returns the target locator it
  was given, unchanged.
\<close>

theorem combine_and_write_returns_target:
  "combine_and_write lib sources target append_dim concat_dim w = (Inr r, w') \<Longrightarrow> r = target"
  by (auto simp: combine_and_write_def Let_def split: sum.splits option.splits prod.splits)

theorem combine_and_write_returns_target_witness:
  "fst (combine_and_write reference [''cache/0.nc''] ''target.zarr'' ''time'' ''time'' world0) =
     Inr ''target.zarr''"
proof -
  have h: "combine_and_write reference [''cache/0.nc''] ''target.zarr'' ''time'' ''time'' world0 =
      (Inr ''target.zarr'', world1)"
    by (rule first_batch)
  from combine_and_write_returns_target [OF h] h show ?thesis by simp
qed

section \<open>Failures\<close>



text \<open>
  C8.  A call that fails before the write (a source cannot be opened, the combination
  fails, the re-chunking fails) leaves the storage, and so the target store, as it was:
  the storage after any call is either the storage before it or the one a \<open>to_zarr\<close>
  call has produced from it.
\<close>

theorem pre_write_failure_keeps_store:
  "(\<forall>e. double_open_files lib sources w = Inl e \<longrightarrow>
      combine_and_write lib sources target append_dim concat_dim w = (Inl e, w)) \<and>
   (\<forall>e fs. double_open_files lib sources w = Inr fs \<and>
      open_mfdataset lib fs ''nested'' concat_dim = Inl e \<longrightarrow>
      combine_and_write lib sources target append_dim concat_dim w = (Inl e, w)) \<and>
   (\<forall>e fs ds. double_open_files lib sources w = Inr fs \<and>
      open_mfdataset lib fs ''nested'' concat_dim = Inr ds \<and>
      ds_chunk lib ds [(append_dim, length sources)] = Inl e \<longrightarrow>
      combine_and_write lib sources target append_dim concat_dim w = (Inl e, w)) \<and>
   (snd (combine_and_write lib sources target append_dim concat_dim w) = w \<or>
    (\<exists>ds mapper kwargs.
       snd (combine_and_write lib sources target append_dim concat_dim w) =
       snd (to_zarr lib ds mapper kwargs w)))"
proof (intro conjI allI impI)
  show "snd (combine_and_write lib sources target append_dim concat_dim w) = w \<or>
    (\<exists>ds mapper kwargs.
       snd (combine_and_write lib sources target append_dim concat_dim w) =
       snd (to_zarr lib ds mapper kwargs w))"
    using combine_and_write_cases [of lib sources target append_dim concat_dim w]
  proof (elim disjE exE conjE)
    fix e
    assume "combine_and_write lib sources target append_dim concat_dim w = (Inl e, w)"
    then show ?thesis by simp
  next
    fix ds' mapper n
    assume "combine_and_write lib sources target append_dim concat_dim w =
      write_result target (to_zarr lib ds' mapper
        (if n = 0 then [(''mode'', ''w'')] else [(''mode'', ''a''), (''append_dim'', append_dim)]) w)"
    then have "snd (combine_and_write lib sources target append_dim concat_dim w) =
      snd (to_zarr lib ds' mapper
        (if n = 0 then [(''mode'', ''w'')] else [(''mode'', ''a''), (''append_dim'', append_dim)]) w)"
      by (simp only: snd_write_result)
    then show ?thesis by blast
  qed
qed (simp_all add: combine_and_write_def)


theorem pre_write_failure_keeps_store_witness:
  "combine_and_write reference [''cache/0.nc'', ''cache/9.nc''] ''target.zarr'' ''time'' ''time''
     world1 = (Inl SourceUnavailable, world1) \<and>
   combine_and_write reference [''cache/0.nc'', ''cache/2.nc''] ''target.zarr'' ''time'' ''time''
     world1 = (Inl DatasetConflict, world1) \<and>
   combine_and_write reference [''cache/0.nc''] ''target.zarr'' ''lat'' ''time'' world1 =
     (Inl InvalidArgument, world1)"
proof -
  have 1: "combine_and_write reference [''cache/0.nc'', ''cache/9.nc''] ''target.zarr'' ''time'' ''time''
      world1 = (Inl SourceUnavailable, world1)"
    using pre_write_failure_keeps_store [where lib = reference and sources = "[''cache/0.nc'', ''cache/9.nc'']"
        and w = world1 and target = "''target.zarr''" and append_dim = "''time''" and concat_dim = "''time''"]
      missing_source by blast
  have 2: "combine_and_write reference [''cache/0.nc'', ''cache/2.nc''] ''target.zarr'' ''time'' ''time''
      world1 = (Inl DatasetConflict, world1)"
    using pre_write_failure_keeps_store [where lib = reference and sources = "[''cache/0.nc'', ''cache/2.nc'']"
        and w = world1 and target = "''target.zarr''" and append_dim = "''time''" and concat_dim = "''time''"]
      conflicting_sources by blast
  have 3: "combine_and_write reference [''cache/0.nc''] ''target.zarr'' ''lat'' ''time'' world1 =
      (Inl InvalidArgument, world1)"
    using pre_write_failure_keeps_store [where lib = reference and sources = "[''cache/0.nc'']"
        and w = world1 and target = "''target.zarr''" and append_dim = "''lat''" and concat_dim = "''time''"]
      no_such_dimension by blast
  from 1 2 3 show ?thesis by simp
qed

section \<open>The choice between create and append\<close>

text \<open>
  C9.  Once the batch is combined and re-chunked, the write depends on the target only
  through the number \<open>n\<close> of keys of its mapping: with no key the write is made in mode
  \<open>w\<close>, with any key at all in mode \<open>a\<close> along the append dimension, whatever the keys
  hold.
\<close>

theorem write_mode_by_key_count:
  assumes "double_open_files lib sources w = Inr fs"
    and "open_mfdataset lib fs ''nested'' concat_dim = Inr ds"
    and "ds_chunk lib ds [(append_dim, length sources)] = Inr ds'"
    and "get_mapper lib target w = Inr mapper"
    and "mapper_len lib mapper w = Inr n"
  shows "(n = 0 \<longrightarrow> combine_and_write lib sources target append_dim concat_dim w =
            write_result target (to_zarr lib ds' mapper [(''mode'', ''w'')] w)) \<and>
         (n \<noteq> 0 \<longrightarrow> combine_and_write lib sources target append_dim concat_dim w =
            write_result target
              (to_zarr lib ds' mapper [(''mode'', ''a''), (''append_dim'', append_dim)] w))"
  using combine_and_write_reaches_write [OF assms] by simp

theorem write_mode_by_key_count_witness:
  "mapper_len reference ''target.zarr'' world0 = Inr 0 \<and>
   combine_and_write reference [''cache/0.nc''] ''target.zarr'' ''time'' ''time'' world0 =
     write_result ''target.zarr''
       (to_zarr reference [(''time'', [[0], [1], [2]]), (''x'', [[7, 8]])] ''target.zarr''
          [(''mode'', ''w'')] world0) \<and>
   mapper_len reference ''target.zarr'' world_notes = Inr 1 \<and>
   combine_and_write reference [''cache/0.nc''] ''target.zarr'' ''time'' ''time'' world_notes =
     write_result ''target.zarr''
       (to_zarr reference [(''time'', [[0], [1], [2]]), (''x'', [[7, 8]])] ''target.zarr''
          [(''mode'', ''a''), (''append_dim'', ''time'')] world_notes)"
proof -
  have a: "double_open_files reference [''cache/0.nc''] world0 = Inr [src0]"
    and b: "open_mfdataset reference [src0] ''nested'' ''time'' = Inr src0"
    and c: "ds_chunk reference src0 [(''time'', length [''cache/0.nc''])] =
        Inr [(''time'', [[0], [1], [2]]), (''x'', [[7, 8]])]"
    and d: "get_mapper reference ''target.zarr'' world0 = Inr ''target.zarr''"
    and e: "mapper_len reference ''target.zarr'' world0 = Inr 0"
    by (simp_all add: ref_defs ex_defs)
  have a': "double_open_files reference [''cache/0.nc''] world_notes = Inr [src0]"
    and d': "get_mapper reference ''target.zarr'' world_notes = Inr ''target.zarr''"
    and e': "mapper_len reference ''target.zarr'' world_notes = Inr 1"
    using notes_batch by simp_all
  show ?thesis
    using write_mode_by_key_count [OF a b c d e] write_mode_by_key_count [OF a' b c d' e'] e e'
    by simp
qed

end
